theory Spec2Isabelle
  imports Main "HOL-Library.Sublist"
begin

section \<open>The request router of handler_registry.go\<close>

text \<open>
  The Go file registers routes (a path pattern, a handler, the allowed methods) and
  selects the handler of a request. A path pattern is turned into the source text of a
  regular expression and compiled by \<open>regexp.MustCompile\<close>; dispatch calls
  \<open>FindStringSubmatch\<close> on the compiled expression. Strings are byte strings
  (\<open>char list\<close>), as Go's are.
\<close>

subsection \<open>Requests, responses and handlers\<close>

text \<open>
  Modelled from the spec: the types \<open>Request\<close> and \<open>Response\<close> are declared
  outside handler_registry.go. The spec gives a request a method and a path (and possibly
  more, which is the record's extension), and a response a status code and a body.
\<close>

record Request =
  Method :: string
  Path :: string

record Response =
  StatusCode :: int
  Body :: string

text \<open>Go's \<open>error\<close> interface: \<open>None\<close> is nil, \<open>Some msg\<close> an error value.\<close>

type_synonym go_error = "string option"

type_synonym 'a Handler = "'a Request_scheme \<Rightarrow> Response \<times> go_error"

definition StatusNotFound :: int where
  "StatusNotFound = 404"

definition NoMatchingHandler :: "'a Handler" where
  "NoMatchingHandler re =
     (\<lparr>StatusCode = StatusNotFound, Body = ''The requested path is not found.''\<rparr>, None)"

subsection \<open>Package strings\<close>

text \<open>\<open>strings.Split(s, sep)\<close> for a separator of one byte: never an empty list.\<close>

fun Split :: "string \<Rightarrow> char \<Rightarrow> string list" where
  "Split [] sep = [[]]"
| "Split (c # cs) sep =
     (if c = sep then [] # Split cs sep
      else (case Split cs sep of [] \<Rightarrow> [[c]] | p # ps \<Rightarrow> (c # p) # ps))"

fun Join :: "string list \<Rightarrow> string \<Rightarrow> string" where
  "Join [] sep = []"
| "Join [p] sep = p"
| "Join (p # q # ps) sep = p @ sep @ Join (q # ps) sep"

definition HasPrefix :: "string \<Rightarrow> string \<Rightarrow> bool" where
  "HasPrefix s pre = (take (length pre) s = pre)"

subsection \<open>Package regexp: syntax trees\<close>

text \<open>
  The model of Go's package regexp covers ASCII expressions built from literals, \<open>.\<close>,
  bracket classes without ranges, the Perl classes d, s, w and their negations, escaped
  punctuation, capturing groups (named with \<open>(?P<name>\<close> or unnamed), alternation, and
  the greedy operators \<open>*\<close>, \<open>+\<close>, \<open>?\<close>. For these the parser returns what Go's
  does: a tree, or the error with which \<open>MustCompile\<close> panics. Every other construct
  (anchors, counted repetition, lazy operators, flags, ranges, other escapes, bytes
  outside ASCII) makes the parser answer \<open>Unmodelled\<close>, which says nothing about
  Go. The limits that later versions of the library put on the size of an expression
  are not part of the model.
\<close>

datatype syntax_error =
    ErrInvalidNamedCapture
  | ErrInvalidRepeatOp
  | ErrMissingBracket
  | ErrMissingParen
  | ErrMissingRepeatArgument
  | ErrTrailingBackslash
  | ErrUnexpectedParen
  | Unmodelled

datatype citem = CChar char | CDigit bool | CSpace bool | CWord bool

datatype regex =
    EmptyMatch
  | Literal char
  | AnyCharNotNL
  | CharClass bool "citem list"
  | Concat regex regex
  | Alternate regex regex
  | Star regex
  | Plus regex
  | Quest regex
  | Capture nat string regex

definition backslash :: char where
  "backslash = CHR 0x5C"

definition isascii :: "char \<Rightarrow> bool" where
  "isascii c = ((of_char c :: nat) < 128)"

definition isdigit :: "char \<Rightarrow> bool" where
  "isdigit c = (48 \<le> (of_char c :: nat) \<and> (of_char c :: nat) \<le> 57)"

definition isalnum :: "char \<Rightarrow> bool" where
  "isalnum c =
     (isdigit c \<or> (65 \<le> (of_char c :: nat) \<and> (of_char c :: nat) \<le> 90)
      \<or> (97 \<le> (of_char c :: nat) \<and> (of_char c :: nat) \<le> 122))"

text \<open>Perl's \<open>\s\<close> in Go is tab, newline, form feed, carriage return and space.\<close>

definition isspace :: "char \<Rightarrow> bool" where
  "isspace c = (c \<in> set [CHR 0x09, CHR 0x0A, CHR 0x0C, CHR 0x0D, CHR 0x20])"

definition isword :: "char \<Rightarrow> bool" where
  "isword c = (isalnum c \<or> c = CHR ''_'')"

text \<open>\<open>isValidCaptureName\<close>: a non-empty name of letters, digits and underscores.\<close>

definition isValidCaptureName :: "string \<Rightarrow> bool" where
  "isValidCaptureName name = (name \<noteq> [] \<and> list_all isword name)"

fun citem_match :: "citem \<Rightarrow> char \<Rightarrow> bool" where
  "citem_match (CChar x) c = (c = x)"
| "citem_match (CDigit neg) c = (isdigit c \<noteq> neg)"
| "citem_match (CSpace neg) c = (isspace c \<noteq> neg)"
| "citem_match (CWord neg) c = (isword c \<noteq> neg)"

definition class_match :: "bool \<Rightarrow> citem list \<Rightarrow> char \<Rightarrow> bool" where
  "class_match neg items c = (list_ex (\<lambda>it. citem_match it c) items \<noteq> neg)"

subsection \<open>Package regexp: the parser\<close>

text \<open>
  What follows a backslash: a Perl class, or a punctuation character standing for
  itself; letters and digits other than the six class letters are not modelled.
\<close>

definition escape_item :: "char \<Rightarrow> citem option" where
  "escape_item e =
     (if e = CHR ''d'' then Some (CDigit False)
      else if e = CHR ''D'' then Some (CDigit True)
      else if e = CHR ''s'' then Some (CSpace False)
      else if e = CHR ''S'' then Some (CSpace True)
      else if e = CHR ''w'' then Some (CWord False)
      else if e = CHR ''W'' then Some (CWord True)
      else if isascii e \<and> \<not> isalnum e then Some (CChar e)
      else None)"

text \<open>
  The items of a bracket class, from the text after \<open>[\<close> (and after \<open>^\<close>, if any):
  the items and the number of bytes read, the closing bracket included.
\<close>

fun parseClassItems :: "string \<Rightarrow> syntax_error + (citem list \<times> nat)" where
  "parseClassItems [] = Inl ErrMissingBracket"
| "parseClassItems (c # t) =
     (if c = CHR '']'' then Inr ([], 1)
      else if c = backslash then
        (case t of
           [] \<Rightarrow> Inl ErrTrailingBackslash
         | e # t' \<Rightarrow>
             (case escape_item e of
                None \<Rightarrow> Inl Unmodelled
              | Some it \<Rightarrow>
                  (case parseClassItems t' of
                     Inl err \<Rightarrow> Inl err
                   | Inr (its, k) \<Rightarrow> Inr (it # its, k + 2))))
      else if c = CHR ''-'' \<or> c = CHR ''['' \<or> \<not> isascii c then Inl Unmodelled
      else
        (case parseClassItems t of
           Inl err \<Rightarrow> Inl err
         | Inr (its, k) \<Rightarrow> Inr (CChar c # its, k + 1)))"

definition parseClass :: "string \<Rightarrow> syntax_error + (regex \<times> nat)" where
  "parseClass t =
     (let neg = (case t of [] \<Rightarrow> False | c # _ \<Rightarrow> c = CHR ''^'');
          body = (if neg then drop 1 t else t)
      in case body of
           [] \<Rightarrow> Inl ErrMissingBracket
         | c # _ \<Rightarrow>
             if c = CHR '']'' then Inl Unmodelled
             else
               (case parseClassItems body of
                  Inl err \<Rightarrow> Inl err
                | Inr (its, k) \<Rightarrow> Inr (CharClass neg its, if neg then k + 1 else k)))"

fun concat_re :: "regex list \<Rightarrow> regex" where
  "concat_re [] = EmptyMatch"
| "concat_re [r] = r"
| "concat_re (r # rs) = Concat r (concat_re rs)"

fun alternate_re :: "regex list \<Rightarrow> regex" where
  "alternate_re [] = EmptyMatch"
| "alternate_re [r] = r"
| "alternate_re (r # rs) = Alternate r (alternate_re rs)"

text \<open>
  The parser keeps, for the group it is in, the finished alternatives and the items of
  the current one, both latest first; \<open>collapse\<close> builds the group's tree.
\<close>

definition collapse :: "regex list \<Rightarrow> regex list \<Rightarrow> regex" where
  "collapse alts sq = alternate_re (rev (concat_re (rev sq) # alts))"

fun nullable :: "regex \<Rightarrow> bool" where
  "nullable EmptyMatch = True"
| "nullable (Literal c) = False"
| "nullable AnyCharNotNL = False"
| "nullable (CharClass neg its) = False"
| "nullable (Concat r1 r2) = (nullable r1 \<and> nullable r2)"
| "nullable (Alternate r1 r2) = (nullable r1 \<or> nullable r2)"
| "nullable (Star r) = True"
| "nullable (Plus r) = nullable r"
| "nullable (Quest r) = True"
| "nullable (Capture i name r) = nullable r"

definition repeat_op :: "char \<Rightarrow> regex \<Rightarrow> regex" where
  "repeat_op c r =
     (if c = CHR ''*'' then Star r else if c = CHR ''+'' then Plus r else Quest r)"

definition is_repeat :: "char \<Rightarrow> bool" where
  "is_repeat c = (c = CHR ''*'' \<or> c = CHR ''+'' \<or> c = CHR ''?'')"

text \<open>An open group: its index, its name, and the alternatives and items around it.\<close>

type_synonym frame = "nat \<times> string \<times> regex list \<times> regex list"

text \<open>
  The loop of \<open>syntax.Parse\<close> over the expression's text: \<open>n\<close> counts the groups
  opened so far, \<open>stk\<close> holds the open groups, innermost first.
\<close>

fun parse :: "nat \<Rightarrow> frame list \<Rightarrow> regex list \<Rightarrow> regex list \<Rightarrow> string
    \<Rightarrow> syntax_error + regex" where
  "parse n stk alts sq [] =
     (if stk = [] then Inr (collapse alts sq) else Inl ErrMissingParen)"
| "parse n stk alts sq (c # t) =
     (if c = CHR ''('' then
        (case t of
           [] \<Rightarrow> parse (Suc n) ((Suc n, [], alts, sq) # stk) [] [] t
         | q # t' \<Rightarrow>
             if q \<noteq> CHR ''?'' then parse (Suc n) ((Suc n, [], alts, sq) # stk) [] [] t
             else if take 2 t' = ''P<'' \<and> drop 2 t' \<noteq> [] then
               (let name = takeWhile (\<lambda>x. x \<noteq> CHR ''>'') (drop 2 t')
                in if \<not> list_all isascii name then Inl Unmodelled
                   else if length name = length (drop 2 t') then Inl ErrInvalidNamedCapture
                   else if \<not> isValidCaptureName name then Inl ErrInvalidNamedCapture
                   else parse (Suc n) ((Suc n, name, alts, sq) # stk) [] []
                          (drop (length name + 3) t'))
             else Inl Unmodelled)
      else if c = CHR '')'' then
        (case stk of
           [] \<Rightarrow> Inl ErrUnexpectedParen
         | (i, name, alts', sq') # stk' \<Rightarrow>
             parse n stk' alts' (Capture i name (collapse alts sq) # sq') t)
      else if c = CHR ''|'' then parse n stk (concat_re (rev sq) # alts) [] t
      else if is_repeat c then
        (case sq of
           [] \<Rightarrow> Inl ErrMissingRepeatArgument
         | r # sq' \<Rightarrow>
             if t \<noteq> [] \<and> hd t = CHR ''?'' then Inl Unmodelled
             else if t \<noteq> [] \<and> is_repeat (hd t) then Inl ErrInvalidRepeatOp
             else if c \<noteq> CHR ''?'' \<and> nullable r then Inl Unmodelled
             else parse n stk alts (repeat_op c r # sq') t)
      else if c = CHR ''['' then
        (case parseClass t of
           Inl err \<Rightarrow> Inl err
         | Inr (cls, k) \<Rightarrow> parse n stk alts (cls # sq) (drop k t))
      else if c = CHR ''.'' then parse n stk alts (AnyCharNotNL # sq) t
      else if c = backslash then
        (case t of
           [] \<Rightarrow> Inl ErrTrailingBackslash
         | e # t' \<Rightarrow>
             (case escape_item e of
                None \<Rightarrow> Inl Unmodelled
              | Some (CChar x) \<Rightarrow> parse n stk alts (Literal x # sq) t'
              | Some it \<Rightarrow> parse n stk alts (CharClass False [it] # sq) t'))
      else if c = CHR ''^'' \<or> c = CHR ''$'' \<or> c = CHR ''{'' \<or> \<not> isascii c then
        Inl Unmodelled
      else parse n stk alts (Literal c # sq) t)"

text \<open>
  \<open>regexp.MustCompile\<close>: \<open>Inl\<close> of an error of the library is the panic,
  \<open>Inl Unmodelled\<close> an expression outside the model.
\<close>

definition MustCompile :: "string \<Rightarrow> syntax_error + regex" where
  "MustCompile str = parse 0 [] [] [] str"

subsection \<open>Package regexp: matching\<close>

text \<open>
  Go matches as a backtracking matcher would: the leftmost match, and at that place the
  first one in the order of preference (a greedy operator tries more repetitions first,
  an alternation its left branch first). \<open>rmatch\<close> lists, in that order, every way
  an expression can match a prefix of the text: what is left of the text, and the groups
  captured (latest first). A repetition goes round again only after consuming a byte.
  The matcher reads the text byte by byte where Go reads it rune by rune: on a text with
  bytes outside ASCII the two can differ for \<open>.\<close>, a negated class and a negated
  Perl class, which take one byte here and one rune there.
\<close>

type_synonym mstate = "string \<times> (nat \<times> string) list"

function rmatch :: "regex \<Rightarrow> mstate \<Rightarrow> mstate list" where
  "rmatch EmptyMatch st = [st]"
| "rmatch (Literal c) st =
     (case fst st of [] \<Rightarrow> [] | x # xs \<Rightarrow> if x = c then [(xs, snd st)] else [])"
| "rmatch AnyCharNotNL st =
     (case fst st of [] \<Rightarrow> [] | x # xs \<Rightarrow> if x \<noteq> CHR 0x0A then [(xs, snd st)] else [])"
| "rmatch (CharClass neg its) st =
     (case fst st of
        [] \<Rightarrow> []
      | x # xs \<Rightarrow> if class_match neg its x then [(xs, snd st)] else [])"
| "rmatch (Concat r1 r2) st = concat (map (\<lambda>st'. rmatch r2 st') (rmatch r1 st))"
| "rmatch (Alternate r1 r2) st = rmatch r1 st @ rmatch r2 st"
| "rmatch (Quest r) st = rmatch r st @ [st]"
| "rmatch (Star r) st =
     concat (map (\<lambda>st'. if length (fst st') < length (fst st)
                          then rmatch (Star r) st' else [])
                (rmatch r st)) @ [st]"
| "rmatch (Plus r) st =
     concat (map (\<lambda>st'. if length (fst st') < length (fst st)
                          then rmatch (Plus r) st' @ [st'] else [st'])
                (rmatch r st))"
| "rmatch (Capture i name r) st =
     map (\<lambda>st'. (fst st', (i, take (length (fst st) - length (fst st')) (fst st)) # snd st'))
         (rmatch r st)"
  by pat_completeness auto
termination
  by (relation "inv_image (less_than <*lex*> less_than) (\<lambda>(r, st). (size r, length (fst st)))")
     auto

text \<open>The search for the leftmost match: the matched text and the captured groups.\<close>

fun search :: "regex \<Rightarrow> string \<Rightarrow> (string \<times> (nat \<times> string) list) option" where
  "search re s =
     (case rmatch re (s, []) of
        st # _ \<Rightarrow> Some (take (length s - length (fst st)) s, snd st)
      | [] \<Rightarrow> (case s of [] \<Rightarrow> None | _ # s' \<Rightarrow> search re s'))"

text \<open>The names of an expression's groups, in the order of their opening brackets.\<close>

fun group_names :: "regex \<Rightarrow> string list" where
  "group_names (Concat r1 r2) = group_names r1 @ group_names r2"
| "group_names (Alternate r1 r2) = group_names r1 @ group_names r2"
| "group_names (Star r) = group_names r"
| "group_names (Plus r) = group_names r"
| "group_names (Quest r) = group_names r"
| "group_names (Capture i name r) = name # group_names r"
| "group_names r = []"

definition NumSubexp :: "regex \<Rightarrow> nat" where
  "NumSubexp re = length (group_names re)"

definition SubexpNames :: "regex \<Rightarrow> string list" where
  "SubexpNames re = [] # group_names re"

text \<open>
  \<open>FindStringSubmatch\<close>: the empty list is Go's nil (no match); otherwise the matched
  text, then the text of each group (empty for a group that took no part).
\<close>

definition FindStringSubmatch :: "regex \<Rightarrow> string \<Rightarrow> string list" where
  "FindStringSubmatch re s =
     (case search re s of
        None \<Rightarrow> []
      | Some (m, caps) \<Rightarrow>
          m # map (\<lambda>i. case map_of caps i of None \<Rightarrow> [] | Some t \<Rightarrow> t)
                [1 ..< Suc (NumSubexp re)])"

subsection \<open>Routes\<close>

text \<open>
  The struct \<open>route\<close>. The type of the compiled expression is a parameter; the
  routes of this model hold a \<open>regex\<close>.
\<close>

record ('re, 'a) route =
  Pattern :: 're
  Handler :: "'a Handler"
  Methods :: "string list"

text \<open>The segment a path component becomes: Sprintf of \<open>(?P<%s>[\S|^\/]+)\<close> with \<open>p[1:]\<close>.\<close>

definition translateSegment :: "string \<Rightarrow> string" where
  "translateSegment p =
     (if HasPrefix p '':''
      then ''(?P<'' @ drop 1 p @ ''>['' @ [backslash] @ ''S|^'' @ [backslash] @ ''/]+)''
      else p)"

definition regexpStr :: "string \<Rightarrow> string" where
  "regexpStr pathPattern = Join (map translateSegment (Split pathPattern CHR ''/'')) ''/''"

definition translatePatternToRegexp :: "string \<Rightarrow> syntax_error + regex" where
  "translatePatternToRegexp pathPattern = MustCompile (regexpStr pathPattern)"

definition newRoute :: "string \<Rightarrow> 'a Handler \<Rightarrow> string list \<Rightarrow> syntax_error + (regex, 'a) route" where
  "newRoute pathPattern handler allowedMethods =
     (case translatePatternToRegexp pathPattern of
        Inl err \<Rightarrow> Inl err
      | Inr re \<Rightarrow> Inr \<lparr>Pattern = re, Handler = handler, Methods = allowedMethods\<rparr>)"

subsection \<open>The registry\<close>

record ('re, 'a) handlerRegistry =
  routes :: "('re, 'a) route list"

text \<open>
  Modelled from the spec: the helper \<open>contains\<close> is called by \<open>getHandler\<close> and
  defined outside handler_registry.go. The spec describes it as exact, case-sensitive
  string membership in the route's allowed methods.
\<close>

fun contains :: "string list \<Rightarrow> string \<Rightarrow> bool" where
  "contains [] m = False"
| "contains (x # xs) m = (if x = m then True else contains xs m)"

text \<open>The test of the loop of \<open>getHandler\<close> on one route.\<close>

definition accepts :: "(regex, 'a, 'b) route_scheme \<Rightarrow> 'c Request_scheme \<Rightarrow> bool" where
  "accepts rt req =
     (length (FindStringSubmatch (Pattern rt) (Path req)) > 0 \<and> contains (Methods rt) (Method req))"

text \<open>
  The loop of \<open>getHandler\<close> over the routes, in the order of the list: the handler
  of the first route that passes the test, \<open>NoMatchingHandler\<close> when none does.
\<close>

fun scan :: "(regex, 'a) route list \<Rightarrow> 'a Request_scheme \<Rightarrow> 'a Handler" where
  "scan [] req = NoMatchingHandler"
| "scan (rt # rts) req = (if accepts rt req then Handler rt else scan rts req)"

text \<open>
  Both methods have a pointer receiver: they take the registry and return it with their
  result. A panic of \<open>register\<close> happens before the append.
\<close>

definition getHandler :: "'a Request_scheme \<Rightarrow> (regex, 'a) handlerRegistry
    \<Rightarrow> 'a Handler \<times> (regex, 'a) handlerRegistry" where
  "getHandler req rg = (scan (routes rg) req, rg)"

definition register :: "string \<Rightarrow> 'a Handler \<Rightarrow> string list \<Rightarrow> (regex, 'a) handlerRegistry
    \<Rightarrow> (syntax_error + unit) \<times> (regex, 'a) handlerRegistry" where
  "register path handler allowedMethods rg =
     (case newRoute path handler allowedMethods of
        Inl err \<Rightarrow> (Inl err, rg)
      | Inr route \<Rightarrow> (Inr (), rg\<lparr>routes := routes rg @ [route]\<rparr>))"

subsection \<open>The registry over any compiler and matcher\<close>

text \<open>
  The functions of the file once more, with its two calls into package regexp as
  parameters: \<open>mc\<close> stands for \<open>regexp.MustCompile\<close> (\<open>Inl\<close> is its panic, \<open>Inr\<close>
  the compiled expression) and \<open>fsm\<close> for \<open>FindStringSubmatch\<close>. What is proved of
  them holds whatever the library does with an expression.
\<close>

definition translatePatternToRegexp_with :: "(string \<Rightarrow> 'e + 're) \<Rightarrow> string \<Rightarrow> 'e + 're" where
  "translatePatternToRegexp_with mc pathPattern = mc (regexpStr pathPattern)"

definition newRoute_with :: "(string \<Rightarrow> 'e + 're) \<Rightarrow> string \<Rightarrow> 'a Handler \<Rightarrow> string list
    \<Rightarrow> 'e + ('re, 'a) route" where
  "newRoute_with mc pathPattern handler allowedMethods =
     (case translatePatternToRegexp_with mc pathPattern of
        Inl err \<Rightarrow> Inl err
      | Inr re \<Rightarrow> Inr \<lparr>Pattern = re, Handler = handler, Methods = allowedMethods\<rparr>)"

definition register_with :: "(string \<Rightarrow> 'e + 're) \<Rightarrow> string \<Rightarrow> 'a Handler \<Rightarrow> string list
    \<Rightarrow> ('re, 'a) handlerRegistry \<Rightarrow> ('e + unit) \<times> ('re, 'a) handlerRegistry" where
  "register_with mc path handler allowedMethods rg =
     (case newRoute_with mc path handler allowedMethods of
        Inl err \<Rightarrow> (Inl err, rg)
      | Inr route \<Rightarrow> (Inr (), rg\<lparr>routes := routes rg @ [route]\<rparr>))"

definition accepts_with :: "('re \<Rightarrow> string \<Rightarrow> string list) \<Rightarrow> ('re, 'a, 'b) route_scheme
    \<Rightarrow> 'c Request_scheme \<Rightarrow> bool" where
  "accepts_with fsm rt req =
     (length (fsm (Pattern rt) (Path req)) > 0 \<and> contains (Methods rt) (Method req))"

fun scan_with :: "('re \<Rightarrow> string \<Rightarrow> string list) \<Rightarrow> ('re, 'a) route list \<Rightarrow> 'a Request_scheme
    \<Rightarrow> 'a Handler" where
  "scan_with fsm [] req = NoMatchingHandler"
| "scan_with fsm (rt # rts) req =
     (if accepts_with fsm rt req then Handler rt else scan_with fsm rts req)"

definition getHandler_with :: "('re \<Rightarrow> string \<Rightarrow> string list) \<Rightarrow> 'a Request_scheme
    \<Rightarrow> ('re, 'a) handlerRegistry \<Rightarrow> 'a Handler \<times> ('re, 'a) handlerRegistry" where
  "getHandler_with fsm req rg = (scan_with fsm (routes rg) req, rg)"

text \<open>One call of either method takes a registry to the next.\<close>

inductive step_with :: "(string \<Rightarrow> 'e + 're) \<Rightarrow> ('re \<Rightarrow> string \<Rightarrow> string list)
    \<Rightarrow> ('re, 'a) handlerRegistry \<Rightarrow> ('re, 'a) handlerRegistry \<Rightarrow> bool"
  for mc :: "string \<Rightarrow> 'e + 're" and fsm :: "'re \<Rightarrow> string \<Rightarrow> string list" where
  step_register: "step_with mc fsm rg (snd (register_with mc path handler allowedMethods rg))"
| step_getHandler: "step_with mc fsm rg (snd (getHandler_with fsm req rg))"

subsection \<open>Patterns whose compilation is settled by their shape\<close>

text \<open>
  A byte that the parser reads as a literal: ASCII and not one of the bytes with a
  meaning of their own in an expression.
\<close>

definition isliteral :: "char \<Rightarrow> bool" where
  "isliteral c = (isascii c \<and> c \<notin> set (backslash # ''()|*+?[.^${''))"

text \<open>
  A segment of literal bytes that does not begin with the colon; a colon followed by a
  valid group name; a pattern all of whose segments are of these two kinds.
\<close>

definition literal_segment :: "string \<Rightarrow> bool" where
  "literal_segment p = (list_all isliteral p \<and> \<not> HasPrefix p '':'')"

definition param_segment :: "string \<Rightarrow> bool" where
  "param_segment p = (HasPrefix p '':'' \<and> isValidCaptureName (drop 1 p))"

definition wellformed :: "string \<Rightarrow> bool" where
  "wellformed pathPattern =
     list_all (\<lambda>p. literal_segment p \<or> param_segment p) (Split pathPattern CHR ''/'')"

text \<open>The class that the format string of \<open>translatePatternToRegexp\<close> denotes.\<close>

definition param_class :: regex where
  "param_class =
     CharClass False [CSpace True, CChar CHR ''|'', CChar CHR ''^'', CChar CHR ''/'']"

subsection \<open>Example handlers and tables\<close>

definition respond :: "string \<Rightarrow> 'a Handler" where
  "respond body re = (\<lparr>StatusCode = 200, Body = body\<rparr>, None)"

text \<open>Three routes with one pattern and one method, registered as C, then A, then B.\<close>

definition table3 :: "(regex, unit) handlerRegistry" where
  "table3 =
     snd (register ''/pc1'' (respond ''B'') [''GET'']
       (snd (register ''/pc1'' (respond ''A'') [''GET'']
         (snd (register ''/pc1'' (respond ''C'') [''GET''] \<lparr>routes = []\<rparr>)))))"

text \<open>
  The scenario of the spec: one pattern registered for GET with a first handler, then
  for POST with a second.
\<close>

definition name_re :: regex where
  "name_re =
     concat_re (map Literal ''/pc1/'' @ [Capture 1 ''name'' (Plus param_class)]
                @ map Literal ''/pc2'')"

definition scenario :: "(regex, unit) handlerRegistry" where
  "scenario =
     snd (register ''/pc1/:name/pc2'' (respond ''H2'') [''POST'']
       (snd (register ''/pc1/:name/pc2'' (respond ''H1'') [''GET''] \<lparr>routes = []\<rparr>)))"

text \<open>
  The route that \<open>register\<close> makes of a pattern of literal bytes, with a handler
  that answers with the given body.
\<close>

definition lit_route :: "string \<Rightarrow> string \<Rightarrow> string list \<Rightarrow> (regex, unit) route" where
  "lit_route p body ms =
     \<lparr>Pattern = concat_re (map Literal p), Handler = respond body, Methods = ms\<rparr>"

section \<open>Properties\<close>

subsection \<open>The scan of the route list\<close>

lemma contains_iff: "contains xs m \<longleftrightarrow> m \<in> set xs"
  by (induction xs) auto

lemma scan_skip: "\<not> accepts rt req \<Longrightarrow> scan (pre @ rt # post) req = scan (pre @ post) req"
  by (induction pre) auto

lemma scan_first:
  "\<forall>r \<in> set pre. \<not> accepts r req \<Longrightarrow> accepts A req \<Longrightarrow> scan (pre @ A # post) req = Handler A"
  by (induction pre) auto

lemma scan_none: "\<forall>r \<in> set rts. \<not> accepts r req \<Longrightarrow> scan rts req = NoMatchingHandler"
  by (induction rts) auto

lemma scan_cut: "accepts A req \<Longrightarrow> scan (pre @ A # post) req = scan (pre @ [A]) req"
  by (induction pre) auto

lemma scan_range: "scan rts req \<in> insert NoMatchingHandler (Handler ` set rts)"
  by (induction rts) auto

lemma scan_cong:
  "Path req1 = Path req2 \<Longrightarrow> Method req1 = Method req2 \<Longrightarrow> scan rts req1 = scan rts req2"
  by (induction rts) (auto simp: accepts_def)

lemma register_with_prefix:
  "prefix (routes rg) (routes (snd (register_with mc p h ms rg)))"
  by (simp add: register_with_def split: sum.splits)

lemma step_with_prefix: "step_with mc fsm rg rg' \<Longrightarrow> prefix (routes rg) (routes rg')"
  by (induction rule: step_with.induct)
     (simp_all add: register_with_prefix getHandler_with_def)

lemma steps_with_prefix:
  "(step_with mc fsm)\<^sup>*\<^sup>* rg rg' \<Longrightarrow> prefix (routes rg) (routes rg')"
proof (induction rule: rtranclp_induct)
  case base
  show ?case by simp
next
  case (step y z)
  from step.hyps(2) have "prefix (routes y) (routes z)" by (rule step_with_prefix)
  with step.IH show ?case by (rule prefix_order.trans)
qed

lemma register_instance: "register_with MustCompile path handler ms rg = register path handler ms rg"
  by (simp add: register_with_def newRoute_with_def translatePatternToRegexp_with_def
      register_def newRoute_def translatePatternToRegexp_def)

lemma scan_instance: "scan_with FindStringSubmatch rts req = scan rts req"
  by (induction rts) (simp_all add: accepts_with_def accepts_def)

lemma getHandler_instance: "getHandler_with FindStringSubmatch req rg = getHandler req rg"
  by (simp add: getHandler_with_def getHandler_def scan_instance)

subsection \<open>Split and Join\<close>

lemma Split_not_Nil: "Split s sep \<noteq> []"
  by (induction s) (auto split: list.splits)

lemma Join_Split: "Join (Split s sep) [sep] = s"
proof (induction s)
  case Nil
  show ?case by simp
next
  case (Cons c cs)
  show ?case
  proof (cases "Split cs sep")
    case Nil
    then show ?thesis using Split_not_Nil [of cs sep] by simp
  next
    case (Cons p ps)
    then show ?thesis using Cons.IH by (cases ps) auto
  qed
qed

subsection \<open>Literal expressions\<close>

lemma parse_literal:
  "isliteral c \<Longrightarrow> parse n stk alts sq (c # t) = parse n stk alts (Literal c # sq) t"
  by (simp add: isliteral_def is_repeat_def)

lemma parse_literals:
  "list_all isliteral p \<Longrightarrow>
   parse n stk alts sq (p @ t) = parse n stk alts (rev (map Literal p) @ sq) t"
proof (induction p arbitrary: sq)
  case Nil
  show ?case by simp
next
  case (Cons c p)
  then show ?case by (simp add: parse_literal del: parse.simps)
qed

lemma MustCompile_literals:
  "list_all isliteral p \<Longrightarrow> MustCompile p = Inr (concat_re (map Literal p))"
proof -
  assume "list_all isliteral p"
  then have "parse 0 [] [] [] (p @ []) = parse 0 [] [] (rev (map Literal p) @ []) []"
    by (rule parse_literals)
  then show ?thesis by (simp add: MustCompile_def collapse_def)
qed

lemma rmatch_literals:
  "rmatch (concat_re (map Literal p)) st =
     (if prefix p (fst st) then [(drop (length p) (fst st), snd st)] else [])"
proof (induction p arbitrary: st)
  case Nil
  show ?case by simp
next
  case (Cons c p)
  show ?case
  proof (cases p)
    case Nil
    then show ?thesis by (cases st; cases "fst st") auto
  next
    case (Cons d q)
    have "rmatch (concat_re (map Literal (c # p))) st =
          concat (map (rmatch (concat_re (map Literal p))) (rmatch (Literal c) st))"
      using Cons by simp
    then show ?thesis using Cons.IH
      by (cases st; cases "fst st") (auto simp del: concat_re.simps)
  qed
qed

lemma search_None: "search re s = None \<longleftrightarrow> (\<forall>t. suffix t s \<longrightarrow> rmatch re (t, []) = [])"
proof (induction s)
  case Nil
  show ?case by (auto split: list.splits)
next
  case (Cons c s)
  have "search re (c # s) = None \<longleftrightarrow> rmatch re (c # s, []) = [] \<and> search re s = None"
    by (auto split: list.splits)
  then show ?case using Cons.IH by (auto simp: suffix_Cons)
qed

lemma Find_nonempty: "FindStringSubmatch re s \<noteq> [] \<longleftrightarrow> search re s \<noteq> None"
  by (auto simp: FindStringSubmatch_def split: option.splits)

lemma Find_literals:
  "FindStringSubmatch (concat_re (map Literal p)) s \<noteq> [] \<longleftrightarrow> sublist p s"
proof -
  have "search (concat_re (map Literal p)) s \<noteq> None \<longleftrightarrow> (\<exists>t. suffix t s \<and> prefix p t)"
    by (auto simp add: search_None rmatch_literals simp del: search.simps)
  also have "\<dots> \<longleftrightarrow> sublist p s"
    by (auto simp: sublist_def suffix_def prefix_def)
  finally show ?thesis by (simp add: Find_nonempty)
qed

subsection \<open>Parameter segments\<close>

lemma isword_props: "isword c \<Longrightarrow> c \<noteq> CHR ''>'' \<and> isascii c"
proof -
  assume a: "isword c"
  have "of_char (CHR ''>'') = (62::nat)" by simp
  moreover have "of_char (CHR ''_'') = (95::nat)" by simp
  ultimately show ?thesis using a
    by (auto simp: isword_def isalnum_def isdigit_def isascii_def)
qed

lemma name_scan:
  assumes "isValidCaptureName name"
  shows "takeWhile (\<lambda>x. x \<noteq> CHR ''>'') (name @ CHR ''>'' # t) = name"
proof -
  have "\<forall>c \<in> set name. isword c"
    using assms by (simp add: isValidCaptureName_def list_all_iff)
  then have "\<forall>c \<in> set name. c \<noteq> CHR ''>''" using isword_props by blast
  then show ?thesis by (simp add: takeWhile_append2)
qed

lemma name_ascii:
  assumes "isValidCaptureName name"
  shows "list_all isascii name"
  using assms isword_props by (auto simp: isValidCaptureName_def list_all_iff)

lemma parseClass_param:
  "parseClass (backslash # ''S|^'' @ backslash # ''/]'' @ t) = Inr (param_class, 7)"
  by (simp add: parseClass_def backslash_def escape_item_def isascii_def isalnum_def
      isdigit_def param_class_def)

lemma parse_open:
  assumes "isValidCaptureName name"
  shows "parse n stk alts sq (''(?P<'' @ name @ ''>'' @ t) =
         parse (Suc n) ((Suc n, name, alts, sq) # stk) [] [] t"
proof -
  have "parse n stk alts sq (CHR ''('' # CHR ''?'' # (''P<'' @ name @ CHR ''>'' # t)) =
        parse (Suc n) ((Suc n, name, alts, sq) # stk) [] []
          (drop (length name + 3) (''P<'' @ name @ CHR ''>'' # t))"
    using name_scan [OF assms, of t] name_ascii [OF assms] assms
    by (subst parse.simps) (simp add: Let_def del: parse.simps)
  moreover have "drop (length name + 3) (''P<'' @ name @ CHR ''>'' # t) = t"
    by (simp add: numeral_3_eq_3)
  ultimately show ?thesis by (simp del: parse.simps)
qed

lemma parse_class_plus_close:
  "parse n ((i, name, alts, sq) # stk) [] []
     (''['' @ backslash # ''S|^'' @ backslash # ''/]+)'' @ t) =
   parse n stk alts (Capture i name (Plus param_class) # sq) t"
proof -
  have 1: "parse n ((i, name, alts, sq) # stk) [] []
             (CHR ''['' # (backslash # ''S|^'' @ backslash # ''/]'' @ (''+)'' @ t))) =
           parse n ((i, name, alts, sq) # stk) [] [param_class] (''+)'' @ t)"
    using parseClass_param [of "''+)'' @ t"]
    by (subst parse.simps) (simp add: is_repeat_def del: parse.simps)
  have 2: "parse n ((i, name, alts, sq) # stk) [] [param_class] (CHR ''+'' # CHR '')'' # t) =
           parse n ((i, name, alts, sq) # stk) [] [Plus param_class] (CHR '')'' # t)"
    by (subst parse.simps)
       (simp add: is_repeat_def repeat_op_def param_class_def del: parse.simps)
  have 3: "parse n ((i, name, alts, sq) # stk) [] [Plus param_class] (CHR '')'' # t) =
           parse n stk alts (Capture i name (Plus param_class) # sq) t"
    by (subst parse.simps) (simp add: collapse_def del: parse.simps)
  from 1 2 3 show ?thesis by simp
qed

lemma translateSegment_param:
  "HasPrefix p '':'' \<Longrightarrow>
   translateSegment p =
     ''(?P<'' @ drop 1 p @ ''>'' @ ''['' @ backslash # ''S|^'' @ backslash # ''/]+)''"
  by (simp add: translateSegment_def)

lemma parse_segment:
  assumes "literal_segment p \<or> param_segment p"
  shows "\<exists>n' sq'. parse n stk alts sq (translateSegment p @ t) = parse n' stk alts sq' t"
proof (cases "HasPrefix p '':''")
  case True
  with assms have v: "isValidCaptureName (drop 1 p)"
    by (auto simp: literal_segment_def param_segment_def)
  have "parse n stk alts sq (translateSegment p @ t) =
        parse (Suc n) stk alts (Capture (Suc n) (drop 1 p) (Plus param_class) # sq) t"
    using parse_open [OF v, of n stk alts sq
        "''['' @ backslash # ''S|^'' @ backslash # ''/]+)'' @ t"]
      parse_class_plus_close [of "Suc n" "Suc n" "drop 1 p" alts sq stk t]
    by (simp add: translateSegment_param [OF True] del: parse.simps)
  then show ?thesis by blast
next
  case False
  with assms have "list_all isliteral p"
    by (auto simp: literal_segment_def param_segment_def)
  then have "parse n stk alts sq (translateSegment p @ t) =
             parse n stk alts (rev (map Literal p) @ sq) t"
    using False by (simp add: translateSegment_def parse_literals del: parse.simps)
  then show ?thesis by blast
qed

lemma isliteral_slash: "isliteral CHR ''/''"
  by (simp add: isliteral_def isascii_def backslash_def)

lemma parse_segments:
  "list_all (\<lambda>p. literal_segment p \<or> param_segment p) ps \<Longrightarrow>
   \<exists>n' sq'. parse n stk alts sq (Join (map translateSegment ps) ''/'' @ t) =
            parse n' stk alts sq' t"
proof (induction ps arbitrary: n sq)
  case Nil
  show ?case by (simp del: parse.simps) blast
next
  case (Cons p ps)
  show ?case
  proof (cases ps)
    case Nil
    then show ?thesis using parse_segment [of p n stk alts sq t] Cons.prems
      by (simp del: parse.simps)
  next
    case (Cons q qs)
    have p: "literal_segment p \<or> param_segment p" using Cons.prems by simp
    obtain n1 sq1 where 1:
      "parse n stk alts sq (translateSegment p @ (CHR ''/'' # Join (map translateSegment ps) ''/'' @ t))
       = parse n1 stk alts sq1 (CHR ''/'' # Join (map translateSegment ps) ''/'' @ t)"
      using parse_segment [OF p, of n stk alts sq
          "CHR ''/'' # Join (map translateSegment ps) ''/'' @ t"] by blast
    have 2: "parse n1 stk alts sq1 (CHR ''/'' # Join (map translateSegment ps) ''/'' @ t)
       = parse n1 stk alts (Literal CHR ''/'' # sq1) (Join (map translateSegment ps) ''/'' @ t)"
      by (rule parse_literal [OF isliteral_slash])
    obtain n2 sq2 where 3:
      "parse n1 stk alts (Literal CHR ''/'' # sq1) (Join (map translateSegment ps) ''/'' @ t)
       = parse n2 stk alts sq2 t"
      using Cons.IH [of n1 "Literal CHR ''/'' # sq1"] Cons.prems by auto
    have "Join (map translateSegment (p # ps)) ''/'' @ t =
          translateSegment p @ (CHR ''/'' # Join (map translateSegment ps) ''/'' @ t)"
      using Cons by simp
    with 1 2 3 show ?thesis by (metis)
  qed
qed

lemma wellformed_parses:
  assumes "wellformed pathPattern"
  shows "\<exists>re. translatePatternToRegexp pathPattern = Inr re"
proof -
  obtain n' sq' where
    "parse 0 [] [] [] (Join (map translateSegment (Split pathPattern CHR ''/'')) ''/'' @ [])
     = parse n' [] [] sq' []"
    using parse_segments [of "Split pathPattern CHR ''/''" 0 "[]" "[]" "[]" "[]"] assms
    unfolding wellformed_def by blast
  then show ?thesis
    by (simp add: translatePatternToRegexp_def regexpStr_def MustCompile_def)
qed

subsection \<open>Registration and the test of a route\<close>

lemma group_names_literals: "group_names (concat_re (map Literal p)) = []"
proof (induction p)
  case Nil
  show ?case by simp
next
  case (Cons c p)
  then show ?case by (cases p) simp_all
qed

lemma regexpStr_literal:
  assumes "list_all (\<lambda>p. \<not> HasPrefix p '':'') (Split pathPattern CHR ''/'')"
  shows "regexpStr pathPattern = pathPattern"
proof -
  have "map translateSegment (Split pathPattern CHR ''/'') = Split pathPattern CHR ''/''"
    using assms by (simp add: list_all_iff translateSegment_def map_idI)
  then show ?thesis by (simp add: regexpStr_def Join_Split)
qed

lemma respond_neq: "a \<noteq> b \<Longrightarrow> (respond a :: 'a Handler) \<noteq> respond b"
  by (auto simp: respond_def fun_eq_iff)

lemma respond_not_NoMatching: "(respond a :: 'a Handler) \<noteq> NoMatchingHandler"
  by (auto simp: respond_def NoMatchingHandler_def StatusNotFound_def fun_eq_iff)

lemma translate_health:
  "translatePatternToRegexp ''/health'' = Inr (concat_re (map Literal ''/health''))"
  by code_simp

lemma register_compiled:
  "translatePatternToRegexp path = Inr re \<Longrightarrow>
   register path handler ms rg =
     (Inr (), rg\<lparr>routes := routes rg @ [\<lparr>Pattern = re, Handler = handler, Methods = ms\<rparr>]\<rparr>)"
  by (simp add: register_def newRoute_def)

lemma register_panics:
  "translatePatternToRegexp path = Inl err \<Longrightarrow> register path handler ms rg = (Inl err, rg)"
  by (simp add: register_def newRoute_def)

lemma accepts_literals:
  "accepts \<lparr>Pattern = concat_re (map Literal p), Handler = h, Methods = ms\<rparr> req
     \<longleftrightarrow> sublist p (Path req) \<and> Method req \<in> set ms"
  using Find_literals [of p "Path req"] by (simp add: accepts_def contains_iff)

lemma translate_literal:
  assumes "list_all isliteral pathPattern"
    and "list_all (\<lambda>p. \<not> HasPrefix p '':'') (Split pathPattern CHR ''/'')"
  shows "translatePatternToRegexp pathPattern = Inr (concat_re (map Literal pathPattern))"
  using assms
  by (simp add: translatePatternToRegexp_def regexpStr_literal MustCompile_literals)

lemma register_literal:
  assumes "list_all isliteral p"
    and "list_all (\<lambda>s. \<not> HasPrefix s '':'') (Split p CHR ''/'')"
  shows "register p (respond body) ms rg =
           (Inr (), rg\<lparr>routes := routes rg @ [lit_route p body ms]\<rparr>)"
  using translate_literal [OF assms] by (simp add: register_compiled lit_route_def)

lemma pc1_literal:
  "list_all isliteral ''/pc1''"
  "list_all (\<lambda>s. \<not> HasPrefix s '':'') (Split ''/pc1'' CHR ''/'')"
  by code_simp+

lemma table3_routes:
  "routes table3 =
     [lit_route ''/pc1'' ''C'' [''GET''], lit_route ''/pc1'' ''A'' [''GET''],
      lit_route ''/pc1'' ''B'' [''GET'']]"
  by (simp add: table3_def register_literal [OF pc1_literal])

lemma translate_scenario: "translatePatternToRegexp ''/pc1/:name/pc2'' = Inr name_re"
  by code_simp

lemma find_scenario:
  "FindStringSubmatch name_re ''/pc1/hello/pc2'' = [''/pc1/hello/pc2'', ''hello'']"
  by code_simp

lemma scenario_routes:
  "routes scenario =
     [\<lparr>Pattern = name_re, Handler = respond ''H1'', Methods = [''GET'']\<rparr>,
      \<lparr>Pattern = name_re, Handler = respond ''H2'', Methods = [''POST'']\<rparr>]"
  by (simp add: scenario_def register_compiled [OF translate_scenario])

lemma accepts_lit_route:
  "accepts (lit_route p body ms) req \<longleftrightarrow> sublist p (Path req) \<and> Method req \<in> set ms"
  unfolding lit_route_def by (rule accepts_literals)


lemma Find_lit_route:
  "FindStringSubmatch (Pattern (lit_route p body ms)) s \<noteq> [] \<longleftrightarrow> sublist p s"
  unfolding lit_route_def using Find_literals [of p s] by simp


lemma health_dispatch:
  "fst (register ''/health'' h ms \<lparr>routes = []\<rparr>) = Inr ()
   \<and> fst (getHandler req (snd (register ''/health'' h ms \<lparr>routes = []\<rparr>))) =
       (if sublist ''/health'' (Path req) \<and> Method req \<in> set ms then h
        else NoMatchingHandler)"
proof -
  define re where "re = concat_re (map Literal ''/health'')"
  have "translatePatternToRegexp ''/health'' = Inr re"
    unfolding re_def by (rule translate_health)
  then have reg: "register ''/health'' h ms \<lparr>routes = []\<rparr> =
      (Inr (), \<lparr>routes = [\<lparr>Pattern = re, Handler = h, Methods = ms\<rparr>]\<rparr>)"
    by (simp add: register_compiled)
  have acc: "accepts \<lparr>Pattern = re, Handler = h, Methods = ms\<rparr> req
      \<longleftrightarrow> sublist ''/health'' (Path req) \<and> Method req \<in> set ms"
    unfolding re_def by (rule accepts_literals)
  have "fst (getHandler req (snd (register ''/health'' h ms \<lparr>routes = []\<rparr>))) =
       (if sublist ''/health'' (Path req) \<and> Method req \<in> set ms then h
        else NoMatchingHandler)"
    by (simp add: reg getHandler_def acc)
  moreover have "fst (register ''/health'' h ms \<lparr>routes = []\<rparr>) = Inr ()"
    by (simp add: reg)
  ultimately show ?thesis by (rule conjI [rotated])
qed

lemma sublist_health:
  "sublist ''/health'' ''/health''"
  "sublist ''/health'' ''/health/''"
  "sublist ''/health'' ''/healthcheck''"
  "\<not> sublist ''/health'' ''/healt''"
proof -
  show "sublist ''/health'' ''/health''" by simp
  show "sublist ''/health'' ''/health/''"
    unfolding sublist_def by (rule exI [of _ "[]"], rule exI [of _ "''/''"]) simp
  show "sublist ''/health'' ''/healthcheck''"
    unfolding sublist_def by (rule exI [of _ "[]"], rule exI [of _ "''check''"]) simp
  show "\<not> sublist ''/health'' ''/healt''"
    using sublist_length_le [of "''/health''" "''/healt''"] by auto
qed

section \<open>The claims\<close>

text \<open>
  C1, as the code has it. The expression compiled from the pattern /health has no
  anchors, and \<open>FindStringSubmatch\<close> searches the whole path for it: for the table
  that holds only this route, dispatch selects the route's handler exactly when the
  method of the request is one of the route's methods and the path contains /health as
  a contiguous substring. So the paths /health, /health/ and /healthcheck all select it,
  and /healt does not.
\<close>

theorem health_substring_match:
  "fst (register ''/health'' h ms \<lparr>routes = []\<rparr>) = Inr ()
   \<and> fst (getHandler req (snd (register ''/health'' h ms \<lparr>routes = []\<rparr>))) =
       (if sublist ''/health'' (Path req) \<and> Method req \<in> set ms then h
        else NoMatchingHandler)
   \<and> sublist ''/health'' ''/health'' \<and> sublist ''/health'' ''/health/''
   \<and> sublist ''/health'' ''/healthcheck'' \<and> \<not> sublist ''/health'' ''/healt''"
proof -
  note d = health_dispatch [of h ms req]
  from d have "fst (register ''/health'' h ms \<lparr>routes = []\<rparr>) = Inr ()" ..
  moreover from d have
    "fst (getHandler req (snd (register ''/health'' h ms \<lparr>routes = []\<rparr>))) =
       (if sublist ''/health'' (Path req) \<and> Method req \<in> set ms then h
        else NoMatchingHandler)" ..
  ultimately show ?thesis using sublist_health by blast
qed

text \<open>
  C1 as stated fails: with the route /health registered for GET, a GET request for
  /healthcheck, and one for /health/, is given the route's handler, which is not the
  handler for a miss.
\<close>

theorem health_unanchored_counterexample:
  "fst (getHandler \<lparr>Method = ''GET'', Path = ''/healthcheck''\<rparr>
         (snd (register ''/health'' (respond ''ok'') [''GET''] \<lparr>routes = []\<rparr>))) = respond ''ok''
   \<and> fst (getHandler \<lparr>Method = ''GET'', Path = ''/health/''\<rparr>
         (snd (register ''/health'' (respond ''ok'') [''GET''] \<lparr>routes = []\<rparr>))) = respond ''ok''
   \<and> (respond ''ok'' :: unit Handler) \<noteq> NoMatchingHandler"
proof -
  have "fst (getHandler \<lparr>Method = ''GET'', Path = ''/healthcheck''\<rparr>
         (snd (register ''/health'' (respond ''ok'') [''GET''] \<lparr>routes = []\<rparr>))) = respond ''ok''"
    using health_dispatch [of "respond ''ok''" "[''GET'']"
        "\<lparr>Method = ''GET'', Path = ''/healthcheck''\<rparr>"] sublist_health
    by simp
  moreover have "fst (getHandler \<lparr>Method = ''GET'', Path = ''/health/''\<rparr>
         (snd (register ''/health'' (respond ''ok'') [''GET''] \<lparr>routes = []\<rparr>))) = respond ''ok''"
    using health_dispatch [of "respond ''ok''" "[''GET'']"
        "\<lparr>Method = ''GET'', Path = ''/health/''\<rparr>"] sublist_health
    by simp
  ultimately show ?thesis using respond_not_NoMatching [of "''ok''"] by blast
qed

text \<open>
  C2, evaluated. The pattern /users/:id/items compiles to the literals /users/, the
  group id holding one or more bytes of the class, and the literals /items. The class
  lists the negated space class, the bar, the caret and the slash, so a slash belongs to
  it. The path /users/42/items is accepted with id = 42; the path /users/42/43/items is
  accepted too, with id = 42/43.
\<close>

theorem param_spans_slash:
  "translatePatternToRegexp ''/users/:id/items'' =
     Inr (concat_re (map Literal ''/users/'' @ [Capture 1 ''id'' (Plus param_class)]
                     @ map Literal ''/items''))
   \<and> SubexpNames (concat_re (map Literal ''/users/'' @ [Capture 1 ''id'' (Plus param_class)]
                     @ map Literal ''/items'')) = ['''', ''id'']
   \<and> FindStringSubmatch (concat_re (map Literal ''/users/'' @ [Capture 1 ''id'' (Plus param_class)]
                     @ map Literal ''/items'')) ''/users/42/items'' = [''/users/42/items'', ''42'']
   \<and> FindStringSubmatch (concat_re (map Literal ''/users/'' @ [Capture 1 ''id'' (Plus param_class)]
                     @ map Literal ''/items'')) ''/users/42/43/items''
       = [''/users/42/43/items'', ''42/43'']
   \<and> class_match False [CSpace True, CChar CHR ''|'', CChar CHR ''^'', CChar CHR ''/'']
         CHR ''/''"
  by code_simp

text \<open>
  C3, as the code has it. Compilation succeeds, and so does registration, for every
  pattern each of whose segments is either a segment of literal bytes that does not
  begin with the colon, or the colon followed by a non-empty name of ASCII letters,
  digits and underscores. A name may be repeated. The theorem gives no guarantee for
  other patterns.
\<close>

theorem wellformed_compiles:
  "wellformed pathPattern \<Longrightarrow>
   \<exists>re. translatePatternToRegexp pathPattern = Inr re
     \<and> register pathPattern handler ms rg =
         (Inr (), rg\<lparr>routes := routes rg @ [\<lparr>Pattern = re, Handler = handler, Methods = ms\<rparr>]\<rparr>)"
proof -
  assume "wellformed pathPattern"
  then obtain re where "translatePatternToRegexp pathPattern = Inr re"
    using wellformed_parses by blast
  then show ?thesis using register_compiled by blast
qed

text \<open>
  A pattern of that shape, with the name id in two segments.
\<close>

theorem wellformed_compiles_witness:
  "wellformed ''/users/:id/items/:id''
   \<and> (\<exists>re. translatePatternToRegexp ''/users/:id/items/:id'' = Inr re
        \<and> register ''/users/:id/items/:id'' (respond ''h'') [''GET''] \<lparr>routes = []\<rparr> =
            (Inr (), \<lparr>routes = [\<lparr>Pattern = re, Handler = respond ''h'' :: unit Handler,
                                  Methods = [''GET'']\<rparr>]\<rparr>))"
proof -
  have wf: "wellformed ''/users/:id/items/:id''" by code_simp
  show ?thesis
    using wf wellformed_compiles [OF wf, of "respond ''h''" "[''GET'']" "\<lparr>routes = []\<rparr>"]
    by simp
qed

text \<open>
  C3 as stated fails: the pattern /users/:user-id is a sequence of two literal segments
  and one segment that begins with the colon, and \<open>MustCompile\<close> panics on it, since
  user-id is not a valid group name. Registration panics with it and appends nothing.
\<close>

theorem compile_panic_counterexample:
  "Split ''/users/:user-id'' CHR ''/'' = ['''', ''users'', '':user-id'']
   \<and> translatePatternToRegexp ''/users/:user-id'' = Inl ErrInvalidNamedCapture
   \<and> register ''/users/:user-id'' (respond ''h'') [''GET''] \<lparr>routes = []\<rparr> =
       (Inl ErrInvalidNamedCapture, \<lparr>routes = [] :: (regex, unit) route list\<rparr>)"
proof -
  have 1: "Split ''/users/:user-id'' CHR ''/'' = ['''', ''users'', '':user-id'']"
    by code_simp
  have 2: "translatePatternToRegexp ''/users/:user-id'' = Inl ErrInvalidNamedCapture"
    by code_simp
  from 1 2 show ?thesis by (simp add: register_panics)
qed

text \<open>
  C4, as the code has it. Let route A stand before route B in the table, and let a
  request be accepted by the matchers of both and have a method that both allow. Then
  dispatch answers as it does on the table cut off after A, and as it does on the table
  without B; and it returns the handler of A when no route before A accepts the request.
\<close>

theorem first_match_wins:
  "routes rg = pre @ A # mid @ B # post \<Longrightarrow>
   FindStringSubmatch (Pattern A) (Path req) \<noteq> [] \<Longrightarrow>
   FindStringSubmatch (Pattern B) (Path req) \<noteq> [] \<Longrightarrow>
   Method req \<in> set (Methods A) \<Longrightarrow> Method req \<in> set (Methods B) \<Longrightarrow>
   fst (getHandler req rg) = fst (getHandler req (rg\<lparr>routes := pre @ [A]\<rparr>))
   \<and> fst (getHandler req rg) = fst (getHandler req (rg\<lparr>routes := pre @ A # mid @ post\<rparr>))
   \<and> ((\<forall>r \<in> set pre. \<not> accepts r req) \<longrightarrow> fst (getHandler req rg) = Handler A)"
proof -
  assume r: "routes rg = pre @ A # mid @ B # post"
    and "FindStringSubmatch (Pattern A) (Path req) \<noteq> []"
    and "Method req \<in> set (Methods A)"
  then have a: "accepts A req" by (simp add: accepts_def contains_iff)
  have "scan (pre @ A # mid @ B # post) req = scan (pre @ [A]) req"
    using a by (rule scan_cut)
  moreover have "scan (pre @ A # mid @ post) req = scan (pre @ [A]) req"
    using a by (rule scan_cut)
  moreover have "(\<forall>r \<in> set pre. \<not> accepts r req) \<longrightarrow>
      scan (pre @ A # mid @ B # post) req = Handler A"
    using a scan_first by blast
  ultimately show ?thesis using r by (simp add: getHandler_def)
qed

text \<open>
  A table of four routes: the first does not match the path, the second and the fourth
  do and allow the method, and dispatch returns the handler of the second.
\<close>

theorem first_match_wins_witness:
  "routes \<lparr>routes = [lit_route ''/other'' ''D'' [''GET''], lit_route ''/pc1'' ''A'' [''GET''],
                      lit_route ''/pc'' ''M'' [''POST''], lit_route ''/pc1'' ''B'' [''GET'']]\<rparr>
     = [lit_route ''/other'' ''D'' [''GET'']] @ lit_route ''/pc1'' ''A'' [''GET'']
       # [lit_route ''/pc'' ''M'' [''POST'']] @ lit_route ''/pc1'' ''B'' [''GET''] # []
   \<and> FindStringSubmatch (Pattern (lit_route ''/pc1'' ''A'' [''GET'']))
        (Path \<lparr>Method = ''GET'', Path = ''/pc1''\<rparr>) \<noteq> []
   \<and> FindStringSubmatch (Pattern (lit_route ''/pc1'' ''B'' [''GET'']))
        (Path \<lparr>Method = ''GET'', Path = ''/pc1''\<rparr>) \<noteq> []
   \<and> Method \<lparr>Method = ''GET'', Path = ''/pc1''\<rparr> \<in> set (Methods (lit_route ''/pc1'' ''A'' [''GET'']))
   \<and> Method \<lparr>Method = ''GET'', Path = ''/pc1''\<rparr> \<in> set (Methods (lit_route ''/pc1'' ''B'' [''GET'']))
   \<and> \<not> accepts (lit_route ''/other'' ''D'' [''GET'']) \<lparr>Method = ''GET'', Path = ''/pc1''\<rparr>
   \<and> fst (getHandler \<lparr>Method = ''GET'', Path = ''/pc1''\<rparr>
        \<lparr>routes = [lit_route ''/other'' ''D'' [''GET''], lit_route ''/pc1'' ''A'' [''GET''],
                    lit_route ''/pc'' ''M'' [''POST''], lit_route ''/pc1'' ''B'' [''GET'']]\<rparr>)
       = respond ''A''"
proof -
  let ?D = "lit_route ''/other'' ''D'' [''GET'']"
  let ?A = "lit_route ''/pc1'' ''A'' [''GET'']"
  let ?M = "lit_route ''/pc'' ''M'' [''POST'']"
  let ?B = "lit_route ''/pc1'' ''B'' [''GET'']"
  let ?req = "\<lparr>Method = ''GET'', Path = ''/pc1''\<rparr>"
  let ?rg = "\<lparr>routes = [?D, ?A, ?M, ?B]\<rparr>"
  have h1: "routes ?rg = [?D] @ ?A # [?M] @ ?B # []" by simp
  have h2: "FindStringSubmatch (Pattern ?A) (Path ?req) \<noteq> []"
    by (simp add: Find_lit_route)
  have h3: "FindStringSubmatch (Pattern ?B) (Path ?req) \<noteq> []"
    by (simp add: Find_lit_route)
  have h4: "Method ?req \<in> set (Methods ?A)" by (simp add: lit_route_def)
  have h5: "Method ?req \<in> set (Methods ?B)" by (simp add: lit_route_def)
  have n: "\<not> sublist ''/other'' ''/pc1''" by code_simp
  have h6: "\<forall>r \<in> set [?D]. \<not> accepts r ?req" by (simp add: accepts_lit_route n)
  note w = first_match_wins [OF h1 h2 h3 h4 h5]
  from w have "(\<forall>r \<in> set [?D]. \<not> accepts r ?req) \<longrightarrow>
      fst (getHandler ?req ?rg) = Handler ?A" by blast
  with h6 have "fst (getHandler ?req ?rg) = Handler ?A" by blast
  moreover have "Handler ?A = respond ''A''" by (simp add: lit_route_def)
  ultimately have c: "fst (getHandler ?req ?rg) = respond ''A''" by simp
  from h6 have h7: "\<not> accepts ?D ?req" by simp
  from h1 h2 h3 h4 h5 h7 c show ?thesis by blast
qed

text \<open>
  C4 as stated fails: in the table with the routes C, A, B, all of them registered for
  /pc1 and GET, route A stands before route B and both accept the request GET /pc1,
  yet dispatch returns the handler of C, which is not the handler of A.
\<close>

theorem first_match_counterexample:
  "map Handler (routes table3) = [respond ''C'', respond ''A'', respond ''B'']
   \<and> accepts (routes table3 ! 1) \<lparr>Method = ''GET'', Path = ''/pc1''\<rparr>
   \<and> accepts (routes table3 ! 2) \<lparr>Method = ''GET'', Path = ''/pc1''\<rparr>
   \<and> fst (getHandler \<lparr>Method = ''GET'', Path = ''/pc1''\<rparr> table3) = respond ''C''
   \<and> fst (getHandler \<lparr>Method = ''GET'', Path = ''/pc1''\<rparr> table3) \<noteq> Handler (routes table3 ! 1)"
proof -
  have "(respond ''C'' :: unit Handler) \<noteq> respond ''A''" by (rule respond_neq) simp
  then show ?thesis
    by (simp add: table3_routes getHandler_def accepts_lit_route) (simp add: lit_route_def)
qed

text \<open>
  C5. A route that allows only GET does not pass the test of the loop for a request with
  method POST, whatever its matcher says of the path: dispatch answers as it does on the
  table without that route. It answers with the handler for a miss when no other route
  accepts the request, and with the handler of the first later route that accepts it
  when no route before that one does. Membership is equality of the method strings,
  byte for byte.
\<close>

theorem method_gating:
  "routes rg = pre @ rt # post \<Longrightarrow> Methods rt = [''GET''] \<Longrightarrow> Method req = ''POST'' \<Longrightarrow>
   \<not> accepts rt req
   \<and> fst (getHandler req rg) = fst (getHandler req (rg\<lparr>routes := pre @ post\<rparr>))
   \<and> ((\<forall>r \<in> set (pre @ post). \<not> accepts r req) \<longrightarrow>
        fst (getHandler req rg) = NoMatchingHandler)
   \<and> ((\<forall>r \<in> set (pre @ skipped). \<not> accepts r req) \<and> post = skipped @ B # rest
        \<and> accepts B req \<longrightarrow> fst (getHandler req rg) = Handler B)"
proof -
  assume r: "routes rg = pre @ rt # post"
    and m: "Methods rt = [''GET'']" "Method req = ''POST''"
  have n: "\<not> accepts rt req" using m by (simp add: accepts_def)
  then have s: "scan (pre @ rt # post) req = scan (pre @ post) req" by (rule scan_skip)
  have miss: "(\<forall>r \<in> set (pre @ post). \<not> accepts r req) \<longrightarrow>
      scan (pre @ post) req = NoMatchingHandler"
    using scan_none by blast
  have later: "(\<forall>r \<in> set (pre @ skipped). \<not> accepts r req) \<and> post = skipped @ B # rest
      \<and> accepts B req \<longrightarrow> scan (pre @ post) req = Handler B"
  proof
    assume a: "(\<forall>r \<in> set (pre @ skipped). \<not> accepts r req) \<and> post = skipped @ B # rest
      \<and> accepts B req"
    then have "scan ((pre @ skipped) @ B # rest) req = Handler B"
      using scan_first [of "pre @ skipped" req B rest] by blast
    with a show "scan (pre @ post) req = Handler B" by simp
  qed
  have e: "fst (getHandler req rg) = scan (pre @ post) req"
    using r s by (simp add: getHandler_def)
  have c2: "fst (getHandler req rg) = fst (getHandler req (rg\<lparr>routes := pre @ post\<rparr>))"
    using e by (simp add: getHandler_def)
  have c3: "(\<forall>r \<in> set (pre @ post). \<not> accepts r req) \<longrightarrow>
      fst (getHandler req rg) = NoMatchingHandler"
    using miss e by metis
  have c4: "(\<forall>r \<in> set (pre @ skipped). \<not> accepts r req) \<and> post = skipped @ B # rest
      \<and> accepts B req \<longrightarrow> fst (getHandler req rg) = Handler B"
    using later e by metis
  from n c2 c3 c4 show ?thesis by (intro conjI)
qed

text \<open>
  Two tables. In the scenario of the spec the route for GET matches the path of a POST
  request and the route registered after it for POST is the one selected. In the second
  table the route for GET matches the path, a route for another path allows POST and a
  third allows only the lower-case spelling: the request is a miss.
\<close>

theorem method_gating_witness:
  "routes scenario = [] @ (routes scenario ! 0) # [routes scenario ! 1]
   \<and> Methods (routes scenario ! 0) = [''GET'']
   \<and> Method \<lparr>Method = ''POST'', Path = ''/pc1/hello/pc2''\<rparr> = ''POST''
   \<and> FindStringSubmatch (Pattern (routes scenario ! 0)) ''/pc1/hello/pc2'' \<noteq> []
   \<and> [routes scenario ! 1] = [] @ (routes scenario ! 1) # []
   \<and> accepts (routes scenario ! 1) \<lparr>Method = ''POST'', Path = ''/pc1/hello/pc2''\<rparr>
   \<and> Handler (routes scenario ! 0) = respond ''H1''
   \<and> Handler (routes scenario ! 1) = respond ''H2''
   \<and> fst (getHandler \<lparr>Method = ''POST'', Path = ''/pc1/hello/pc2''\<rparr> scenario) = respond ''H2''
   \<and> (respond ''H2'' :: unit Handler) \<noteq> respond ''H1''
   \<and> (respond ''H2'' :: unit Handler) \<noteq> NoMatchingHandler
   \<and> routes \<lparr>routes = [lit_route ''/other'' ''D'' [''POST''], lit_route ''/pc1'' ''G'' [''GET''],
                      lit_route ''/pc1'' ''L'' [''post'']]\<rparr>
     = [lit_route ''/other'' ''D'' [''POST'']] @ lit_route ''/pc1'' ''G'' [''GET'']
       # [lit_route ''/pc1'' ''L'' [''post'']]
   \<and> Methods (lit_route ''/pc1'' ''G'' [''GET'']) = [''GET'']
   \<and> Method \<lparr>Method = ''POST'', Path = ''/pc1''\<rparr> = ''POST''
   \<and> FindStringSubmatch (Pattern (lit_route ''/pc1'' ''G'' [''GET''])) ''/pc1'' \<noteq> []
   \<and> \<not> accepts (lit_route ''/other'' ''D'' [''POST'']) \<lparr>Method = ''POST'', Path = ''/pc1''\<rparr>
   \<and> \<not> accepts (lit_route ''/pc1'' ''L'' [''post'']) \<lparr>Method = ''POST'', Path = ''/pc1''\<rparr>
   \<and> fst (getHandler \<lparr>Method = ''POST'', Path = ''/pc1''\<rparr>
        \<lparr>routes = [lit_route ''/other'' ''D'' [''POST''], lit_route ''/pc1'' ''G'' [''GET''],
                    lit_route ''/pc1'' ''L'' [''post'']]\<rparr>)
       = NoMatchingHandler"
proof -
  let ?q = "\<lparr>Method = ''POST'', Path = ''/pc1/hello/pc2''\<rparr>"
  let ?r0 = "routes scenario ! 0"
  let ?r1 = "routes scenario ! 1"
  have g1: "routes scenario = [] @ ?r0 # [?r1]" by (simp add: scenario_routes)
  have g2: "Methods ?r0 = [''GET'']" by (simp add: scenario_routes)
  have g3: "Method ?q = ''POST''" by simp
  have g4: "FindStringSubmatch (Pattern ?r0) ''/pc1/hello/pc2'' \<noteq> []"
    by (simp add: scenario_routes find_scenario)
  have g5: "[?r1] = [] @ ?r1 # []" by simp
  have g6: "accepts ?r1 ?q"
    by (simp add: scenario_routes accepts_def find_scenario)
  have g7: "Handler ?r0 = respond ''H1''" by (simp add: scenario_routes)
  have g8: "Handler ?r1 = respond ''H2''" by (simp add: scenario_routes)
  note v = method_gating [OF g1 g2 g3, of "[]" ?r1 "[]"]
  have ante: "(\<forall>r \<in> set ([] @ []). \<not> accepts r ?q) \<and> [?r1] = [] @ ?r1 # [] \<and> accepts ?r1 ?q"
    using g6 by simp
  have "fst (getHandler ?q scenario) = Handler ?r1"
    by (rule mp [OF v [THEN conjunct2, THEN conjunct2, THEN conjunct2] ante])
  with g8 have g9: "fst (getHandler ?q scenario) = respond ''H2''" by simp
  have g10: "(respond ''H2'' :: unit Handler) \<noteq> respond ''H1''" by (rule respond_neq) simp
  have g11: "(respond ''H2'' :: unit Handler) \<noteq> NoMatchingHandler"
    by (rule respond_not_NoMatching)
  let ?D = "lit_route ''/other'' ''D'' [''POST'']"
  let ?G = "lit_route ''/pc1'' ''G'' [''GET'']"
  let ?L = "lit_route ''/pc1'' ''L'' [''post'']"
  let ?req = "\<lparr>Method = ''POST'', Path = ''/pc1''\<rparr>"
  let ?rg = "\<lparr>routes = [?D, ?G, ?L]\<rparr>"
  have h1: "routes ?rg = [?D] @ ?G # [?L]" by simp
  have h2: "Methods ?G = [''GET'']" by (simp add: lit_route_def)
  have h3: "Method ?req = ''POST''" by simp
  have h4: "FindStringSubmatch (Pattern ?G) ''/pc1'' \<noteq> []" by (simp add: Find_lit_route)
  have n: "\<not> sublist ''/other'' ''/pc1''" by code_simp
  have h5: "\<forall>r \<in> set ([?D] @ [?L]). \<not> accepts r ?req"
    by (simp add: accepts_lit_route n)
  note w = method_gating [OF h1 h2 h3]
  from w have "(\<forall>r \<in> set ([?D] @ [?L]). \<not> accepts r ?req) \<longrightarrow>
      fst (getHandler ?req ?rg) = NoMatchingHandler" by blast
  with h5 have c: "fst (getHandler ?req ?rg) = NoMatchingHandler" by blast
  from h5 have h6: "\<not> accepts ?D ?req" and h7: "\<not> accepts ?L ?req" by simp_all
  from g1 g2 g3 g4 g5 g6 g7 g8 g9 g10 g11 h1 h2 h3 h4 h6 h7 c show ?thesis by blast
qed

text \<open>
  C6. Dispatch returns, for every table and request, the handler of a registered route
  or the handler for a miss; on the empty table it returns the handler for a miss, and
  that handler answers every request with status 404, a non-empty body and no error.
\<close>

theorem dispatch_total:
  "fst (getHandler req rg) \<in> insert NoMatchingHandler (Handler ` set (routes rg))
   \<and> fst (getHandler req (rg\<lparr>routes := []\<rparr>)) = NoMatchingHandler
   \<and> NoMatchingHandler req2 =
       (\<lparr>StatusCode = StatusNotFound, Body = ''The requested path is not found.''\<rparr>, None)
   \<and> StatusNotFound = 404
   \<and> Body (fst (NoMatchingHandler req2)) \<noteq> []"
  using scan_range [of "routes rg" req]
  by (simp add: getHandler_def NoMatchingHandler_def StatusNotFound_def)

text \<open>
  C7. Two requests with the same path and the same method are given the same handler by
  the same table, whatever else they carry, and dispatch returns the registry as it
  received it.
\<close>

theorem dispatch_deterministic:
  "Path req1 = Path req2 \<Longrightarrow> Method req1 = Method req2 \<Longrightarrow>
   fst (getHandler req1 rg) = fst (getHandler req2 rg)
   \<and> snd (getHandler req1 rg) = rg \<and> snd (getHandler req2 rg) = rg"
  using scan_cong [of req1 req2 "routes rg"] by (simp add: getHandler_def)

text \<open>
  Two requests that agree on path and method and differ in what else they carry.
\<close>

theorem dispatch_deterministic_witness:
  "Path \<lparr>Method = ''GET'', Path = ''/pc1'', \<dots> = (1::nat)\<rparr>
     = Path \<lparr>Method = ''GET'', Path = ''/pc1'', \<dots> = (2::nat)\<rparr>
   \<and> Method \<lparr>Method = ''GET'', Path = ''/pc1'', \<dots> = (1::nat)\<rparr>
     = Method \<lparr>Method = ''GET'', Path = ''/pc1'', \<dots> = (2::nat)\<rparr>
   \<and> fst (getHandler \<lparr>Method = ''GET'', Path = ''/pc1'', \<dots> = (1::nat)\<rparr>
          \<lparr>routes = [\<lparr>Pattern = concat_re (map Literal ''/pc1''), Handler = respond ''A'',
                       Methods = [''GET'']\<rparr>]\<rparr>)
     = fst (getHandler \<lparr>Method = ''GET'', Path = ''/pc1'', \<dots> = (2::nat)\<rparr>
          \<lparr>routes = [\<lparr>Pattern = concat_re (map Literal ''/pc1''), Handler = respond ''A'',
                       Methods = [''GET'']\<rparr>]\<rparr>)
   \<and> snd (getHandler \<lparr>Method = ''GET'', Path = ''/pc1'', \<dots> = (1::nat)\<rparr>
          \<lparr>routes = [\<lparr>Pattern = concat_re (map Literal ''/pc1''), Handler = respond ''A'',
                       Methods = [''GET'']\<rparr>]\<rparr>)
     = \<lparr>routes = [\<lparr>Pattern = concat_re (map Literal ''/pc1''), Handler = respond ''A'',
                       Methods = [''GET'']\<rparr>]\<rparr>"
proof -
  let ?r1 = "\<lparr>Method = ''GET'', Path = ''/pc1'', \<dots> = (1::nat)\<rparr>"
  let ?r2 = "\<lparr>Method = ''GET'', Path = ''/pc1'', \<dots> = (2::nat)\<rparr>"
  let ?rg = "\<lparr>routes = [\<lparr>Pattern = concat_re (map Literal ''/pc1''),
                Handler = respond ''A'' :: nat Handler, Methods = [''GET'']\<rparr>]\<rparr>"
  have h1: "Path ?r1 = Path ?r2" by simp
  have h2: "Method ?r1 = Method ?r2" by simp
  from h1 h2 dispatch_deterministic [OF h1 h2, of ?rg] show ?thesis by blast
qed

text \<open>
  C8, as the code has it, for any implementation of \<open>MustCompile\<close> and
  \<open>FindStringSubmatch\<close>. A call of \<open>register\<close> whose pattern compiles returns
  normally with the registry it received and one more route at the end of the list: the
  compiled expression, the given handler and the given methods. A call whose pattern
  does not compile panics and leaves the registry as it was. After any number of calls
  of \<open>register\<close> and \<open>getHandler\<close> the route list that was there before is a
  prefix of the one there after: no route is removed, changed or moved. The functions
  \<open>register\<close> and \<open>getHandler\<close> of this model are the instances for the model
  of package regexp.
\<close>

theorem register_appends:
  "(mc (regexpStr path) = Inr re \<longrightarrow>
      register_with mc path handler ms rg =
        (Inr (), rg\<lparr>routes := routes rg @ [\<lparr>Pattern = re, Handler = handler, Methods = ms\<rparr>]\<rparr>))
   \<and> (mc (regexpStr path) = Inl err \<longrightarrow> register_with mc path handler ms rg = (Inl err, rg))
   \<and> ((step_with mc fsm)\<^sup>*\<^sup>* rg rg' \<longrightarrow> prefix (routes rg) (routes rg'))
   \<and> register path handler ms rg0 = register_with MustCompile path handler ms rg0
   \<and> getHandler req rg0 = getHandler_with FindStringSubmatch req rg0"
  using steps_with_prefix [of mc fsm rg rg']
  by (simp add: register_with_def newRoute_with_def translatePatternToRegexp_with_def
      register_instance [unfolded register_with_def newRoute_with_def
        translatePatternToRegexp_with_def] getHandler_instance)

text \<open>
  From the registry with the route C: a registration that compiles appends the route A,
  one that panics leaves the list as it is, and two registrations lead to the table
  with C, A, B.
\<close>

theorem register_appends_witness:
  "MustCompile (regexpStr ''/pc1'') = Inr (concat_re (map Literal ''/pc1''))
   \<and> MustCompile (regexpStr ''/users/:user-id'') = Inl ErrInvalidNamedCapture
   \<and> register_with MustCompile ''/pc1'' (respond ''A'') [''GET'']
         \<lparr>routes = [lit_route ''/pc1'' ''C'' [''GET'']]\<rparr> =
       (Inr (), \<lparr>routes = [lit_route ''/pc1'' ''C'' [''GET''], lit_route ''/pc1'' ''A'' [''GET'']]\<rparr>)
   \<and> register_with MustCompile ''/users/:user-id'' (respond ''A'') [''GET'']
         \<lparr>routes = [lit_route ''/pc1'' ''C'' [''GET'']]\<rparr> =
       (Inl ErrInvalidNamedCapture, \<lparr>routes = [lit_route ''/pc1'' ''C'' [''GET'']]\<rparr>)
   \<and> (step_with MustCompile FindStringSubmatch)\<^sup>*\<^sup>*
         \<lparr>routes = [lit_route ''/pc1'' ''C'' [''GET'']]\<rparr> table3
   \<and> prefix (routes \<lparr>routes = [lit_route ''/pc1'' ''C'' [''GET'']]\<rparr>) (routes table3)
   \<and> routes table3 = [lit_route ''/pc1'' ''C'' [''GET''], lit_route ''/pc1'' ''A'' [''GET''],
        lit_route ''/pc1'' ''B'' [''GET'']]"
proof -
  let ?C = "lit_route ''/pc1'' ''C'' [''GET'']"
  let ?A = "lit_route ''/pc1'' ''A'' [''GET'']"
  let ?B = "lit_route ''/pc1'' ''B'' [''GET'']"
  let ?rg1 = "\<lparr>routes = [?C]\<rparr>"
  let ?rg2 = "\<lparr>routes = [?C, ?A]\<rparr>"
  have t1: "MustCompile (regexpStr ''/pc1'') = Inr (concat_re (map Literal ''/pc1''))"
    using translate_literal [OF pc1_literal] by (simp add: translatePatternToRegexp_def)
  have t2: "MustCompile (regexpStr ''/users/:user-id'') = Inl ErrInvalidNamedCapture"
    by code_simp
  note w1 = register_appends [of MustCompile "''/pc1''" "concat_re (map Literal ''/pc1'')"
      "respond ''A''" "[''GET'']" ?rg1 _ FindStringSubmatch table3]
  note w2 = register_appends [of MustCompile "''/users/:user-id''" _
      "respond ''A''" "[''GET'']" ?rg1 ErrInvalidNamedCapture]
  from w1 t1 have "register_with MustCompile ''/pc1'' (respond ''A'') [''GET''] ?rg1 =
      (Inr (), ?rg1\<lparr>routes := routes ?rg1 @ [\<lparr>Pattern = concat_re (map Literal ''/pc1''),
         Handler = respond ''A'', Methods = [''GET'']\<rparr>]\<rparr>)"
    by blast
  then have c1: "register_with MustCompile ''/pc1'' (respond ''A'') [''GET''] ?rg1 = (Inr (), ?rg2)"
    by (simp add: lit_route_def del: concat_re.simps)
  from w2 t2 have c2: "register_with MustCompile ''/users/:user-id'' (respond ''A'') [''GET''] ?rg1 =
      (Inl ErrInvalidNamedCapture, ?rg1)"
    by blast
  have "register_with MustCompile ''/pc1'' (respond ''B'') [''GET''] ?rg2 = (Inr (), table3)"
    by (simp add: register_instance table3_def register_literal [OF pc1_literal])
  then have s2: "step_with MustCompile FindStringSubmatch ?rg2 table3"
    using step_register [of MustCompile FindStringSubmatch ?rg2 "''/pc1''" "respond ''B''" "[''GET'']"]
    by simp
  have s1: "step_with MustCompile FindStringSubmatch ?rg1 ?rg2"
    using step_register [of MustCompile FindStringSubmatch ?rg1 "''/pc1''" "respond ''A''" "[''GET'']"] c1
    by simp
  from s1 s2 have h: "(step_with MustCompile FindStringSubmatch)\<^sup>*\<^sup>* ?rg1 table3" by simp
  from w1 h have p: "prefix (routes ?rg1) (routes table3)" by blast
  from t1 t2 c1 c2 h p table3_routes show ?thesis by blast
qed

text \<open>
  C8 as stated fails: registering the pattern /users/:user-id in the registry that holds
  the route C panics, and the route list is still the one route C; no route with the
  given handler has become its last element.
\<close>

theorem register_panic_counterexample:
  "register ''/users/:user-id'' (respond ''h'') [''GET'']
      \<lparr>routes = [lit_route ''/pc1'' ''C'' [''GET'']]\<rparr> =
     (Inl ErrInvalidNamedCapture, \<lparr>routes = [lit_route ''/pc1'' ''C'' [''GET'']]\<rparr>)
   \<and> Handler (last (routes (snd (register ''/users/:user-id'' (respond ''h'') [''GET'']
        \<lparr>routes = [lit_route ''/pc1'' ''C'' [''GET'']]\<rparr>)))) = respond ''C''
   \<and> (respond ''C'' :: unit Handler) \<noteq> respond ''h''"
proof -
  have t: "translatePatternToRegexp ''/users/:user-id'' = Inl ErrInvalidNamedCapture"
    by code_simp
  have d: "(respond ''C'' :: unit Handler) \<noteq> respond ''h''" by (rule respond_neq) simp
  from d show ?thesis by (simp add: register_panics [OF t] lit_route_def)
qed

text \<open>
  C9. A route with an empty list of methods passes the test of the loop for no request:
  dispatch answers as it does on the table without that route.
\<close>

theorem empty_methods_unreachable:
  "routes rg = pre @ rt # post \<Longrightarrow> Methods rt = [] \<Longrightarrow>
   \<not> accepts rt req
   \<and> fst (getHandler req rg) = fst (getHandler req (rg\<lparr>routes := pre @ post\<rparr>))"
proof -
  assume r: "routes rg = pre @ rt # post" and m: "Methods rt = []"
  have n: "\<not> accepts rt req" using m by (simp add: accepts_def)
  then have "scan (pre @ rt # post) req = scan (pre @ post) req" by (rule scan_skip)
  with n r show ?thesis by (simp add: getHandler_def)
qed

text \<open>
  A route without methods in front of a route for GET: the request is given the handler
  of the second.
\<close>

theorem empty_methods_unreachable_witness:
  "routes \<lparr>routes = [lit_route ''/pc1'' ''E'' [], lit_route ''/pc1'' ''A'' [''GET'']]\<rparr>
     = [] @ lit_route ''/pc1'' ''E'' [] # [lit_route ''/pc1'' ''A'' [''GET'']]
   \<and> Methods (lit_route ''/pc1'' ''E'' []) = []
   \<and> FindStringSubmatch (Pattern (lit_route ''/pc1'' ''E'' [])) ''/pc1'' \<noteq> []
   \<and> \<not> accepts (lit_route ''/pc1'' ''E'' []) \<lparr>Method = ''GET'', Path = ''/pc1''\<rparr>
   \<and> fst (getHandler \<lparr>Method = ''GET'', Path = ''/pc1''\<rparr>
        \<lparr>routes = [lit_route ''/pc1'' ''E'' [], lit_route ''/pc1'' ''A'' [''GET'']]\<rparr>)
       = respond ''A''"
proof -
  let ?E = "lit_route ''/pc1'' ''E'' []"
  let ?A = "lit_route ''/pc1'' ''A'' [''GET'']"
  let ?req = "\<lparr>Method = ''GET'', Path = ''/pc1''\<rparr>"
  let ?rg = "\<lparr>routes = [?E, ?A]\<rparr>"
  have h1: "routes ?rg = [] @ ?E # [?A]" by simp
  have h2: "Methods ?E = []" by (simp add: lit_route_def)
  have h3: "FindStringSubmatch (Pattern ?E) ''/pc1'' \<noteq> []" by (simp add: Find_lit_route)
  note w = empty_methods_unreachable [OF h1 h2, of ?req]
  from w have n: "\<not> accepts ?E ?req" by blast
  from w have "fst (getHandler ?req ?rg) = fst (getHandler ?req (?rg\<lparr>routes := [] @ [?A]\<rparr>))"
    by blast
  moreover have "fst (getHandler ?req (?rg\<lparr>routes := [] @ [?A]\<rparr>)) = respond ''A''"
    by (simp add: getHandler_def accepts_lit_route) (simp add: lit_route_def)
  ultimately have c: "fst (getHandler ?req ?rg) = respond ''A''" by simp
  from h1 h2 h3 n c show ?thesis by blast
qed

text \<open>
  C10, as the code has it. A segment that does not begin with the colon is passed to the
  expression unchanged. When all its bytes are literal bytes (as in foo:bar, with the
  colon inside), it compiles to the sequence of these literals, which has no group.
\<close>

theorem inner_colon_literal:
  "(\<not> HasPrefix p '':'' \<longrightarrow> translateSegment p = p)
   \<and> (\<not> HasPrefix p '':'' \<and> list_all isliteral p \<longrightarrow>
        MustCompile (translateSegment p) = Inr (concat_re (map Literal p))
        \<and> group_names (concat_re (map Literal p)) = []
        \<and> SubexpNames (concat_re (map Literal p)) = [''''])"
  by (simp add: translateSegment_def MustCompile_literals group_names_literals SubexpNames_def)

text \<open>
  The segment foo:bar.
\<close>

theorem inner_colon_literal_witness:
  "\<not> HasPrefix ''foo:bar'' '':'' \<and> list_all isliteral ''foo:bar''
   \<and> translateSegment ''foo:bar'' = ''foo:bar''
   \<and> MustCompile (translateSegment ''foo:bar'') = Inr (concat_re (map Literal ''foo:bar''))
   \<and> SubexpNames (concat_re (map Literal ''foo:bar'')) = ['''']"
proof -
  have h1: "\<not> HasPrefix ''foo:bar'' '':''" by code_simp
  have h2: "list_all isliteral ''foo:bar''" by code_simp
  from h1 h2 inner_colon_literal [of "''foo:bar''"] show ?thesis by blast
qed

text \<open>
  C10 as stated fails: the segment (?P<x>a):b has its colon after the first byte and is
  passed through unchanged, and what is passed through is the source of a named group:
  the compiled expression has the parameter x, which captures a from the path /a:b.
\<close>

theorem inner_colon_counterexample:
  "\<not> HasPrefix ''(?P<x>a):b'' '':'' \<and> CHR '':'' \<in> set (tl ''(?P<x>a):b'')
   \<and> regexpStr ''/(?P<x>a):b'' = ''/(?P<x>a):b''
   \<and> translatePatternToRegexp ''/(?P<x>a):b'' =
       Inr (concat_re [Literal CHR ''/'', Capture 1 ''x'' (Literal CHR ''a''),
                       Literal CHR '':'', Literal CHR ''b''])
   \<and> SubexpNames (concat_re [Literal CHR ''/'', Capture 1 ''x'' (Literal CHR ''a''),
                       Literal CHR '':'', Literal CHR ''b'']) = ['''', ''x'']
   \<and> FindStringSubmatch (concat_re [Literal CHR ''/'', Capture 1 ''x'' (Literal CHR ''a''),
                       Literal CHR '':'', Literal CHR ''b'']) ''/a:b'' = [''/a:b'', ''a'']"
  by code_simp

end
